theory Spec2Isabelle
  imports Main
begin

section \<open>Data model of \<open>globalRecipe.ts\<close>\<close>

text \<open>
  A JavaScript object is given by its own enumerable string-keyed properties, in the
  order in which they were created. An object that the code walks with
  \<open>Object.entries\<close> is the list of these properties; an object that the code reads by
  key (\<open>obj[key]\<close>) is a map from its own keys, and a read of a key it does not own is
  answered by \<open>Object.prototype\<close> (section \<open>The prototype of plain objects\<close>).

  A variant value is typed \<open>BooleanMap<keyof ...> | undefined\<close>: a string token, a
  boolean, or \<open>undefined\<close>.
\<close>

datatype variant_value = Undefined | BoolValue bool | StringValue string

type_synonym variant_class_names = "string \<rightharpoonup> string"

type_synonym variant_selection = "(string \<times> variant_value) list"

text \<open>
  \<open>recipe.classNames\<close>: the base class and the table group \<open>\<rightarrow>\<close> value \<open>\<rightarrow>\<close> class name,
  the plain objects of strings that \<open>recipe()\<close> produces (in the tests,
  \<open>createMockRecipe\<close>).
\<close>

record recipe_fn =
  classNames_base :: string
  classNames_variants :: "string \<rightharpoonup> variant_class_names"

text \<open>
  \<open>GlobalStyleRule\<close>: the own properties of a style object; the property values are
  passed through and never inspected, so their type is a parameter.
  \<open>StyleRuleWithSelectors\<close> is such an object with an optional \<open>selectors\<close> property;
  the record keeps the two halves of \<open>const { selectors, ...properties } = style\<close>.
  A value of \<open>selectors\<close> is \<open>Partial\<close>: its entries may be \<open>undefined\<close>.
\<close>

type_synonym 'v global_style_rule = "(string \<times> 'v) list"

record 'v style_rule_with_selectors =
  properties :: "'v global_style_rule"
  selectors :: "(string \<times> 'v global_style_rule option) list option"

type_synonym selector_generators = "string \<rightharpoonup> (string \<Rightarrow> string)"

record 'v compound_variant =
  variants :: variant_selection
  style :: "'v style_rule_with_selectors"

record 'v global_recipe_options =
  recipe :: recipe_fn
  selectorGenerators :: selector_generators
  base :: "'v style_rule_with_selectors option"
  compoundVariants :: "'v compound_variant list option"

datatype error = TypeError

section \<open>The prototype of plain objects\<close>

text \<open>
  The tables, the groups and \<open>selectorGenerators\<close> are plain objects: their prototype
  is \<open>Object.prototype\<close>, and \<open>obj[key]\<close> for a key that \<open>obj\<close> does not own is the
  member of \<open>Object.prototype\<close> of that name, or \<open>undefined\<close>. The members are those of
  ECMAScript (20.1.3 and B.2.2): the constructor \<open>Object\<close>, ten methods, and the
  accessor \<open>__proto__\<close>, whose getter answers the prototype of the object read, here
  \<open>Object.prototype\<close> itself.
\<close>

datatype native_function =
    ObjectFunction
  | HasOwnProperty | IsPrototypeOf | PropertyIsEnumerable
  | ToLocaleString | ToString | ValueOf
  | DefineGetter | DefineSetter | LookupGetter | LookupSetter

datatype inherited_value = ObjectPrototype | Native native_function

definition prototypeMethods :: "(string \<times> native_function) list" where
  "prototypeMethods =
     [(''hasOwnProperty'', HasOwnProperty),
      (''isPrototypeOf'', IsPrototypeOf),
      (''propertyIsEnumerable'', PropertyIsEnumerable),
      (''toLocaleString'', ToLocaleString),
      (''toString'', ToString),
      (''valueOf'', ValueOf),
      (''__defineGetter__'', DefineGetter),
      (''__defineSetter__'', DefineSetter),
      (''__lookupGetter__'', LookupGetter),
      (''__lookupSetter__'', LookupSetter)]"

definition inheritedMember :: "string \<Rightarrow> inherited_value option" where
  "inheritedMember key =
     (if key = ''__proto__'' then Some ObjectPrototype
      else if key = ''constructor'' then Some (Native ObjectFunction)
      else map_option Native (map_of prototypeMethods key))"

text \<open>The own properties \<open>name\<close> and \<open>length\<close> of the built-in functions.\<close>

fun nativeName :: "native_function \<Rightarrow> string" where
  "nativeName ObjectFunction = ''Object''"
| "nativeName HasOwnProperty = ''hasOwnProperty''"
| "nativeName IsPrototypeOf = ''isPrototypeOf''"
| "nativeName PropertyIsEnumerable = ''propertyIsEnumerable''"
| "nativeName ToLocaleString = ''toLocaleString''"
| "nativeName ToString = ''toString''"
| "nativeName ValueOf = ''valueOf''"
| "nativeName DefineGetter = ''__defineGetter__''"
| "nativeName DefineSetter = ''__defineSetter__''"
| "nativeName LookupGetter = ''__lookupGetter__''"
| "nativeName LookupSetter = ''__lookupSetter__''"

fun nativeLength :: "native_function \<Rightarrow> nat" where
  "nativeLength ObjectFunction = 1"
| "nativeLength HasOwnProperty = 1"
| "nativeLength IsPrototypeOf = 1"
| "nativeLength PropertyIsEnumerable = 1"
| "nativeLength ToLocaleString = 0"
| "nativeLength ToString = 0"
| "nativeLength ValueOf = 0"
| "nativeLength DefineGetter = 2"
| "nativeLength DefineSetter = 2"
| "nativeLength LookupGetter = 1"
| "nativeLength LookupSetter = 1"

text \<open>
  A built-in function converted to a string, as V8 (Node.js, where the package and
  its tests run) prints it.
\<close>

definition nativeSource :: "string \<Rightarrow> string" where
  "nativeSource name = ''function '' @ name @ ''() { [native code] }''"

text \<open>
  \<open>String(value)\<close> of an inherited member; \<open>Object.prototype\<close> prints as
  \<open>[object Object]\<close>. (Every inherited member is an object, and so truthy.)
\<close>

fun inheritedText :: "inherited_value \<Rightarrow> string" where
  "inheritedText ObjectPrototype = ''[object Object]''"
| "inheritedText (Native f) = nativeSource (nativeName f)"

text \<open>
  What a property read on an inherited member gives (line 82, when the group name was
  itself an inherited name): \<open>null\<close>, a number, a string, a built-in function (kept by
  its name), \<open>Function.prototype\<close>, \<open>Object.prototype\<close>.
\<close>

datatype member_value =
    MemberNull
  | MemberNumber nat
  | MemberString string
  | MemberFunction string
  | MemberFunctionPrototype
  | MemberObjectPrototype

text \<open>The static methods of \<open>Object\<close> (ECMAScript 2023, 20.1.2).\<close>

definition objectStatics :: "string list" where
  "objectStatics =
     [''assign'', ''create'', ''defineProperties'', ''defineProperty'', ''entries'',
      ''freeze'', ''fromEntries'', ''getOwnPropertyDescriptor'',
      ''getOwnPropertyDescriptors'', ''getOwnPropertyNames'', ''getOwnPropertySymbols'',
      ''getPrototypeOf'', ''hasOwn'', ''is'', ''isExtensible'', ''isFrozen'', ''isSealed'',
      ''keys'', ''preventExtensions'', ''seal'', ''setPrototypeOf'', ''values'']"

text \<open>
  \<open>Object.prototype[key]\<close>: its own members; its \<open>__proto__\<close> is \<open>null\<close>.
  \<open>f[key]\<close> for a built-in function \<open>f\<close>: its own \<open>length\<close> and \<open>name\<close> (for \<open>Object\<close>
  also \<open>prototype\<close> and the static methods); then the members of
  \<open>Function.prototype\<close>, of which \<open>caller\<close> and \<open>arguments\<close> are accessors that throw
  a \<open>TypeError\<close>; then the members of \<open>Object.prototype\<close> that are not shadowed.
\<close>

fun memberOf :: "inherited_value \<Rightarrow> string \<Rightarrow> error + member_value option" where
  "memberOf ObjectPrototype key =
     (if key = ''__proto__'' then Inr (Some MemberNull)
      else if key = ''constructor'' then Inr (Some (MemberFunction ''Object''))
      else Inr (map_option (\<lambda>f. MemberFunction (nativeName f)) (map_of prototypeMethods key)))"
| "memberOf (Native f) key =
     (if key = ''length'' then Inr (Some (MemberNumber (nativeLength f)))
      else if key = ''name'' then Inr (Some (MemberString (nativeName f)))
      else if f = ObjectFunction \<and> key = ''prototype'' then Inr (Some MemberObjectPrototype)
      else if f = ObjectFunction \<and> key \<in> set objectStatics then Inr (Some (MemberFunction key))
      else if key = ''caller'' \<or> key = ''arguments'' then Inl TypeError
      else if key \<in> set [''apply'', ''bind'', ''call'', ''toString'']
        then Inr (Some (MemberFunction key))
      else if key = ''constructor'' then Inr (Some (MemberFunction ''Function''))
      else if key = ''__proto__'' then Inr (Some MemberFunctionPrototype)
      else Inr (map_option (\<lambda>f. MemberFunction (nativeName f)) (map_of prototypeMethods key)))"

fun memberTruthy :: "member_value \<Rightarrow> bool" where
  "memberTruthy MemberNull = False"
| "memberTruthy (MemberNumber n) = (n \<noteq> 0)"
| "memberTruthy (MemberString s) = (s \<noteq> [])"
| "memberTruthy (MemberFunction name) = True"
| "memberTruthy MemberFunctionPrototype = True"
| "memberTruthy MemberObjectPrototype = True"

fun digitChar :: "nat \<Rightarrow> char" where
  "digitChar n = ''0123456789'' ! (n mod 10)"

fun decimal :: "nat \<Rightarrow> string" where
  "decimal n = (if n < 10 then [digitChar n] else decimal (n div 10) @ [digitChar n])"

fun memberText :: "member_value \<Rightarrow> string" where
  "memberText MemberNull = ''null''"
| "memberText (MemberNumber n) = decimal n"
| "memberText (MemberString s) = s"
| "memberText (MemberFunction name) = nativeSource name"
| "memberText MemberFunctionPrototype = nativeSource ''''"
| "memberText MemberObjectPrototype = ''[object Object]''"

text \<open>
  What \<open>generator(classSelector)\<close> returns: a string for a generator of the set; for an
  inherited member called with no \<open>this\<close> and a string argument, what ECMAScript says
  (20.1.1.1, 20.1.3, B.2.2): \<open>toString\<close> answers \<open>[object Undefined]\<close>, \<open>isPrototypeOf\<close>
  answers \<open>false\<close> for an argument that is no object, \<open>Object\<close> wraps the string in a
  \<open>String\<close> object, the other methods start with \<open>ToObject(this)\<close> and throw a
  \<open>TypeError\<close>, and \<open>Object.prototype\<close> is no function.
\<close>

datatype selector_value =
    Selector string
  | BooleanResult bool
  | StringObject string

fun callInherited :: "inherited_value \<Rightarrow> string \<Rightarrow> error + selector_value" where
  "callInherited ObjectPrototype classSelector = Inl TypeError"
| "callInherited (Native f) classSelector =
     (if f = ToString then Inr (Selector ''[object Undefined]'')
      else if f = IsPrototypeOf then Inr (BooleanResult False)
      else if f = ObjectFunction then Inr (StringObject classSelector)
      else Inl TypeError)"

section \<open>\<open>Object.entries\<close>\<close>

text \<open>
  \<open>Object.entries\<close> lists the own properties whose key is an array index first, in
  ascending numeric order, and then the other string keys in the order of their
  creation (ECMAScript 10.1.11.1). An array index is the canonical decimal form of
  an integer from 0 to 4294967294.
\<close>

definition isDigit :: "char \<Rightarrow> bool" where
  "isDigit c = (c \<in> set ''0123456789'')"

definition digitValue :: "char \<Rightarrow> nat" where
  "digitValue c = length (takeWhile (\<lambda>digit. digit \<noteq> c) ''0123456789'')"

definition decimalValue :: "string \<Rightarrow> nat" where
  "decimalValue key = foldl (\<lambda>n c. 10 * n + digitValue c) 0 key"

definition isArrayIndex :: "string \<Rightarrow> bool" where
  "isArrayIndex key =
     (key \<noteq> [] \<and> list_all isDigit key \<and> (key = ''0'' \<or> hd key \<noteq> CHR ''0'')
      \<and> decimalValue key \<le> 4294967294)"

definition objectEntries :: "(string \<times> 'a) list \<Rightarrow> (string \<times> 'a) list" where
  "objectEntries obj =
     sort_key (\<lambda>entry. decimalValue (fst entry)) (filter (\<lambda>entry. isArrayIndex (fst entry)) obj)
     @ filter (\<lambda>entry. \<not> isArrayIndex (fst entry)) obj"

section \<open>\<open>buildVariantSelector\<close>\<close>

text \<open>
  Line 81: a boolean becomes the token \<open>"true"\<close> or \<open>"false"\<close>, a string is the key
  itself. (Line 76 has already left the loop body for \<open>undefined\<close>; used as a property
  key it would be the string \<open>"undefined"\<close>.)
\<close>

fun variantKey :: "variant_value \<Rightarrow> string" where
  "variantKey (BoolValue variantValue) = (if variantValue then ''true'' else ''false'')"
| "variantKey (StringValue variantValue) = variantValue"
| "variantKey Undefined = ''undefined''"

text \<open>
  Line 78, \<open>classNames[variantName]\<close>: the group of that name, or the inherited member
  of that name, or \<open>undefined\<close>. Both are objects, so \<open>!variantClassNames\<close> holds for
  \<open>undefined\<close> only.
\<close>

datatype variant_group = OwnGroup variant_class_names | InheritedGroup inherited_value

definition readGroup :: "(string \<rightharpoonup> variant_class_names) \<Rightarrow> string \<Rightarrow> variant_group option" where
  "readGroup classNames variantName =
     (case classNames variantName of
        Some variantClassNames \<Rightarrow> Some (OwnGroup variantClassNames)
      | None \<Rightarrow> map_option InheritedGroup (inheritedMember variantName))"

text \<open>
  Line 82, \<open>variantClassNames[key]\<close>: the class name the group holds, or what the group
  inherits under that key; for an inherited member, its property of that name, which
  may throw.
\<close>

datatype class_name =
    OwnClassName string
  | InheritedClassName inherited_value
  | MemberClassName member_value

fun readClassName :: "variant_group \<Rightarrow> string \<Rightarrow> error + class_name option" where
  "readClassName (OwnGroup variantClassNames) key =
     (case variantClassNames key of
        Some className \<Rightarrow> Inr (Some (OwnClassName className))
      | None \<Rightarrow> Inr (map_option InheritedClassName (inheritedMember key)))"
| "readClassName (InheritedGroup member) key =
     (case memberOf member key of
        Inl e \<Rightarrow> Inl e
      | Inr value \<Rightarrow> Inr (map_option MemberClassName value))"

text \<open>Line 83, \<open>if (className)\<close>, and line 84, the template \<open>`.${className}`\<close>.\<close>

fun truthy :: "class_name \<Rightarrow> bool" where
  "truthy (OwnClassName className) = (className \<noteq> [])"
| "truthy (InheritedClassName member) = True"
| "truthy (MemberClassName value) = memberTruthy value"

fun classText :: "class_name \<Rightarrow> string" where
  "classText (OwnClassName className) = className"
| "classText (InheritedClassName member) = inheritedText member"
| "classText (MemberClassName value) = memberText value"

text \<open>
  The loop of lines 75 to 86 over the entries that \<open>Object.entries(variants)\<close> lists,
  with the array \<open>parts\<close> as accumulator. It ends with an exception when a property
  read throws.
\<close>

fun buildParts ::
  "(string \<rightharpoonup> variant_class_names) \<Rightarrow> variant_selection \<Rightarrow> string list
     \<Rightarrow> error + string list"
where
  "buildParts classNames [] parts = Inr parts"
| "buildParts classNames ((variantName, variantValue) # entries) parts =
     (if variantValue = Undefined then buildParts classNames entries parts
      else
        (case readGroup classNames variantName of
           None \<Rightarrow> buildParts classNames entries parts
         | Some variantClassNames \<Rightarrow>
             (case readClassName variantClassNames (variantKey variantValue) of
                Inl e \<Rightarrow> Inl e
              | Inr None \<Rightarrow> buildParts classNames entries parts
              | Inr (Some className) \<Rightarrow>
                  (if truthy className
                   then buildParts classNames entries
                          (parts @ [CHR ''.'' # classText className])
                   else buildParts classNames entries parts))))"

text \<open>Lines 72 to 88; the last is \<open>parts.join("")\<close>.\<close>

definition buildVariantSelector :: "recipe_fn \<Rightarrow> variant_selection \<Rightarrow> error + string" where
  "buildVariantSelector rcp vs =
     (case buildParts (classNames_variants rcp) (objectEntries vs) [] of
        Inl e \<Rightarrow> Inl e
      | Inr parts \<Rightarrow> Inr (concat parts))"

section \<open>\<open>globalRecipe\<close>\<close>

text \<open>
  The external \<open>globalStyle\<close> is a sink: the model keeps the sequence of calls made so
  far, each call a pair of its two arguments. A run of the code ends normally or with
  an exception; the calls made before the exception stay made.
\<close>

type_synonym 'v registration = "selector_value \<times> 'v global_style_rule"

type_synonym 'v calls = "'v registration list"

datatype 'v outcome = Done "'v calls" | Thrown error "'v calls"

definition globalStyle :: "selector_value \<Rightarrow> 'v global_style_rule \<Rightarrow> 'v calls \<Rightarrow> 'v calls" where
  "globalStyle selector rule calls = calls @ [(selector, rule)]"

text \<open>
  \<open>selectorGenerators[key]\<close> (lines 157 and 162): the generator of the set, or the
  inherited member of that name, or \<open>undefined\<close>.
\<close>

datatype generator = OwnGenerator "string \<Rightarrow> string" | InheritedGenerator inherited_value

definition readGenerator :: "selector_generators \<Rightarrow> string \<Rightarrow> generator option" where
  "readGenerator gens key =
     (case gens key of
        Some f \<Rightarrow> Some (OwnGenerator f)
      | None \<Rightarrow> map_option InheritedGenerator (inheritedMember key))"

text \<open>\<open>generator(classSelector)\<close>; calling \<open>undefined\<close> is a \<open>TypeError\<close>.\<close>

fun callGenerator :: "generator option \<Rightarrow> string \<Rightarrow> error + selector_value" where
  "callGenerator None classSelector = Inl TypeError"
| "callGenerator (Some (OwnGenerator f)) classSelector = Inr (Selector (f classSelector))"
| "callGenerator (Some (InheritedGenerator member)) classSelector =
     callInherited member classSelector"

text \<open>
  Lines 161 to 166: the loop over \<open>Object.entries(selectors)\<close>. The generator is called
  when it and the nested style are both there (both are objects when they are).
\<close>

fun applySelectors ::
  "selector_generators \<Rightarrow> string \<Rightarrow> (string \<times> 'v global_style_rule option) list
     \<Rightarrow> 'v calls \<Rightarrow> 'v outcome"
where
  "applySelectors gens classSelector [] calls = Done calls"
| "applySelectors gens classSelector ((selectorKey, selectorStyle) # entries) calls =
     (case readGenerator gens selectorKey of
        None \<Rightarrow> applySelectors gens classSelector entries calls
      | Some generator \<Rightarrow>
          (case selectorStyle of
             None \<Rightarrow> applySelectors gens classSelector entries calls
           | Some rule \<Rightarrow>
               (case callGenerator (Some generator) classSelector of
                  Inl e \<Rightarrow> Thrown e calls
                | Inr selector \<Rightarrow>
                    applySelectors gens classSelector entries
                      (globalStyle selector rule calls))))"

text \<open>
  Lines 153 to 168: the closure \<open>applyStyle\<close>. \<open>applyNested\<close> is its second
  statement, \<open>if (selectors) { ... }\<close>; the first statement calls
  \<open>selectorGenerators["&"]\<close> when the block has properties of its own.
\<close>

definition applyNested ::
  "selector_generators \<Rightarrow> string \<Rightarrow> 'v style_rule_with_selectors \<Rightarrow> 'v calls \<Rightarrow> 'v outcome"
where
  "applyNested gens classSelector st calls =
     (case selectors st of
        None \<Rightarrow> Done calls
      | Some nested \<Rightarrow> applySelectors gens classSelector (objectEntries nested) calls)"

definition applyStyle ::
  "selector_generators \<Rightarrow> string \<Rightarrow> 'v style_rule_with_selectors \<Rightarrow> 'v calls \<Rightarrow> 'v outcome"
where
  "applyStyle gens classSelector st calls =
     (if properties st \<noteq> [] then
        (case callGenerator (readGenerator gens ''&'') classSelector of
           Inl e \<Rightarrow> Thrown e calls
         | Inr selector \<Rightarrow>
             applyNested gens classSelector st (globalStyle selector (properties st) calls))
      else applyNested gens classSelector st calls)"

text \<open>Lines 174 to 179: \<open>compoundVariants.forEach\<close>; an exception ends the walk.\<close>

fun forEachCompound ::
  "recipe_fn \<Rightarrow> selector_generators \<Rightarrow> 'v compound_variant list \<Rightarrow> 'v calls \<Rightarrow> 'v outcome"
where
  "forEachCompound rcp gens [] calls = Done calls"
| "forEachCompound rcp gens (cv # cvs) calls =
     (case buildVariantSelector rcp (variants cv) of
        Inl e \<Rightarrow> Thrown e calls
      | Inr variantSelector \<Rightarrow>
          (if variantSelector \<noteq> [] then
             (case applyStyle gens variantSelector (style cv) calls of
                Done calls' \<Rightarrow> forEachCompound rcp gens cvs calls'
              | Thrown e calls' \<Rightarrow> Thrown e calls')
           else forEachCompound rcp gens cvs calls))"

text \<open>Lines 170 to 179: the body of \<open>globalRecipe\<close>.\<close>

definition globalRecipe :: "'v global_recipe_options \<Rightarrow> 'v calls \<Rightarrow> 'v outcome" where
  "globalRecipe opts calls =
     (case (case base opts of
              None \<Rightarrow> Done calls
            | Some b \<Rightarrow>
                applyStyle (selectorGenerators opts)
                  (CHR ''.'' # classNames_base (recipe opts)) b calls) of
        Thrown e calls' \<Rightarrow> Thrown e calls'
      | Done calls' \<Rightarrow>
          (case compoundVariants opts of
             None \<Rightarrow> Done calls'
           | Some cvs \<Rightarrow> forEachCompound (recipe opts) (selectorGenerators opts) cvs calls'))"

section \<open>What the statements expect\<close>

text \<open>
  The functions of this section are not in the source: they say, without accumulators,
  which selector fragments and which \<open>globalStyle\<close> calls the statements below
  expect, and the source's functions are compared with them.

  \<open>resolveClass\<close> is the class name an entry of a variant selection stands for, when
  it stands for one: its value is not \<open>undefined\<close>, its group is in the table, and its
  key has a class name there that is not the empty string. \<open>fragments\<close> are the
  fragments of the entries that do, in the order of the entries. \<open>ownNames\<close> says
  that no group name and no value key of a selection is the name of a member of
  \<open>Object.prototype\<close>.
\<close>

definition resolveClass ::
  "(string \<rightharpoonup> variant_class_names) \<Rightarrow> string \<times> variant_value \<Rightarrow> string option" where
  "resolveClass tbl entry =
     (if snd entry = Undefined then None
      else
        (case tbl (fst entry) of
           None \<Rightarrow> None
         | Some variantClassNames \<Rightarrow>
             (case variantClassNames (variantKey (snd entry)) of
                None \<Rightarrow> None
              | Some className \<Rightarrow> (if className = [] then None else Some className))))"

definition fragments ::
  "(string \<rightharpoonup> variant_class_names) \<Rightarrow> variant_selection \<Rightarrow> string list" where
  "fragments tbl entries =
     map (\<lambda>className. CHR ''.'' # className) (List.map_filter (resolveClass tbl) entries)"

definition ownNames :: "variant_selection \<Rightarrow> bool" where
  "ownNames vs =
     list_all (\<lambda>entry. inheritedMember (fst entry) = None
        \<and> inheritedMember (variantKey (snd entry)) = None) vs"

text \<open>
  \<open>selectorAsStated\<close> follows the words of claim C1: in the order in which the
  selection was written, a fragment for every entry whose value is not \<open>undefined\<close>,
  whose group is in the table and whose key has a class name in the group, whatever
  that name is.
\<close>

definition fragmentAsStated ::
  "(string \<rightharpoonup> variant_class_names) \<Rightarrow> string \<times> variant_value \<Rightarrow> string" where
  "fragmentAsStated tbl entry =
     (if snd entry = Undefined then []
      else
        (case tbl (fst entry) of
           None \<Rightarrow> []
         | Some variantClassNames \<Rightarrow>
             (case variantClassNames (variantKey (snd entry)) of
                None \<Rightarrow> []
              | Some className \<Rightarrow> CHR ''.'' # className)))"

definition selectorAsStated ::
  "(string \<rightharpoonup> variant_class_names) \<Rightarrow> variant_selection \<Rightarrow> string" where
  "selectorAsStated tbl vs = concat (map (fragmentAsStated tbl) vs)"

text \<open>
  \<open>tokenOf\<close> is an entry with its boolean value replaced by the token \<open>"true"\<close> or
  \<open>"false"\<close>.
\<close>

definition tokenOf :: "string \<times> variant_value \<Rightarrow> string \<times> variant_value" where
  "tokenOf entry =
     (case snd entry of
        BoolValue b \<Rightarrow> (fst entry, StringValue (if b then ''true'' else ''false''))
      | _ \<Rightarrow> entry)"

text \<open>
  A run is the sequence of calls a piece of the code makes, and the exception it ends
  with, if any. \<open>andThen\<close> puts two runs one after the other: the second one happens
  when the first has ended normally. \<open>finish\<close> is the outcome of a run that starts
  after the calls already made.
\<close>

type_synonym 'v run = "'v calls \<times> error option"

definition finish :: "'v calls \<Rightarrow> 'v run \<Rightarrow> 'v outcome" where
  "finish calls r =
     (case snd r of None \<Rightarrow> Done (calls @ fst r) | Some e \<Rightarrow> Thrown e (calls @ fst r))"

definition andThen :: "'v run \<Rightarrow> 'v run \<Rightarrow> 'v run" where
  "andThen first second =
     (case snd first of None \<Rightarrow> (fst first @ fst second, snd second) | Some e \<Rightarrow> first)"

definition inOrder :: "'v run list \<Rightarrow> 'v run" where
  "inOrder rs = foldr andThen rs ([], None)"

text \<open>
  The run of one call of a generator; of the statement for the block's own properties
  (line 156); of one entry of the nested mapping (lines 162 to 165); of a style block;
  of a compound variant (lines 175 to 178). \<open>nestedEntries\<close> are the entries of the
  nested mapping as \<open>Object.entries\<close> lists them, none when there is no mapping.
\<close>

definition callRun :: "generator option \<Rightarrow> string \<Rightarrow> 'v global_style_rule \<Rightarrow> 'v run" where
  "callRun g classSelector rule =
     (case callGenerator g classSelector of
        Inl e \<Rightarrow> ([], Some e)
      | Inr selector \<Rightarrow> ([(selector, rule)], None))"

definition selfRun ::
  "selector_generators \<Rightarrow> string \<Rightarrow> 'v style_rule_with_selectors \<Rightarrow> 'v run" where
  "selfRun gens classSelector st =
     (if properties st = [] then ([], None)
      else callRun (readGenerator gens ''&'') classSelector (properties st))"

definition stateRun ::
  "selector_generators \<Rightarrow> string \<Rightarrow> string \<times> 'v global_style_rule option \<Rightarrow> 'v run" where
  "stateRun gens classSelector entry =
     (case readGenerator gens (fst entry) of
        None \<Rightarrow> ([], None)
      | Some g \<Rightarrow>
          (case snd entry of
             None \<Rightarrow> ([], None)
           | Some rule \<Rightarrow> callRun (Some g) classSelector rule))"

definition nestedEntries ::
  "'v style_rule_with_selectors \<Rightarrow> (string \<times> 'v global_style_rule option) list" where
  "nestedEntries st = (case selectors st of None \<Rightarrow> [] | Some nested \<Rightarrow> objectEntries nested)"

definition blockRun ::
  "selector_generators \<Rightarrow> string \<Rightarrow> 'v style_rule_with_selectors \<Rightarrow> 'v run" where
  "blockRun gens classSelector st =
     andThen (selfRun gens classSelector st)
       (inOrder (map (stateRun gens classSelector) (nestedEntries st)))"

definition entryRun ::
  "recipe_fn \<Rightarrow> selector_generators \<Rightarrow> 'v compound_variant \<Rightarrow> 'v run" where
  "entryRun rcp gens cv =
     (case buildVariantSelector rcp (variants cv) of
        Inl e \<Rightarrow> ([], Some e)
      | Inr variantSelector \<Rightarrow>
          (if variantSelector = [] then ([], None)
           else blockRun gens variantSelector (style cv)))"

text \<open>
  The calls expected of one style block when only generators of the set are involved:
  its own call, when it has top-level properties, and one call for each entry of its
  nested mapping whose key has a generator in the set and whose style is there.
  \<open>ownStates\<close> says that every state key has a generator in the set or is not the
  name of a member of \<open>Object.prototype\<close>.
\<close>

definition selfRegistration ::
  "(string \<Rightarrow> string) \<Rightarrow> string \<Rightarrow> 'v style_rule_with_selectors \<Rightarrow> 'v calls" where
  "selfRegistration g classSelector st =
     (if properties st = [] then [] else [(Selector (g classSelector), properties st)])"

definition stateRegistration ::
  "selector_generators \<Rightarrow> string \<Rightarrow> string \<times> 'v global_style_rule option
     \<Rightarrow> 'v registration option" where
  "stateRegistration gens classSelector entry =
     (case gens (fst entry) of
        None \<Rightarrow> None
      | Some g \<Rightarrow>
          (case snd entry of
             None \<Rightarrow> None
           | Some rule \<Rightarrow> Some (Selector (g classSelector), rule)))"

definition stateRegistrations ::
  "selector_generators \<Rightarrow> string \<Rightarrow> (string \<times> 'v global_style_rule option) list
     \<Rightarrow> 'v calls" where
  "stateRegistrations gens classSelector entries =
     List.map_filter (stateRegistration gens classSelector) entries"

definition ownStates ::
  "selector_generators \<Rightarrow> (string \<times> 'v global_style_rule option) list \<Rightarrow> bool" where
  "ownStates gens entries =
     list_all (\<lambda>entry. gens (fst entry) \<noteq> None \<or> inheritedMember (fst entry) = None) entries"

text \<open>
  \<open>callsAsStated\<close> is the number of calls claim C7 states for an expanded entry: one
  for the block itself and one for each state key of its nested mapping.
\<close>

definition callsAsStated :: "'v style_rule_with_selectors \<Rightarrow> nat" where
  "callsAsStated st = 1 + length (nestedEntries st)"

section \<open>The order of \<open>Object.entries\<close> and the loops\<close>

lemma insort_key_split:
  "\<exists>xs ys. insort_key f e zs = xs @ e # ys \<and> zs = xs @ ys"
proof (induction zs)
  case Nil
  show ?case by simp
next
  case (Cons z zs)
  show ?case
  proof (cases "f e \<le> f z")
    case True
    then have "insort_key f e (z # zs) = [] @ e # (z # zs) \<and> z # zs = [] @ (z # zs)"
      by simp
    then show ?thesis by blast
  next
    case False
    from Cons.IH obtain xs ys where "insort_key f e zs = xs @ e # ys" "zs = xs @ ys"
      by blast
    with False have "insort_key f e (z # zs) = (z # xs) @ e # ys \<and> z # zs = (z # xs) @ ys"
      by simp
    then show ?thesis by blast
  qed
qed

lemma insort_key_keeps_split:
  assumes "sorted (map f (xs @ e # ys))"
  shows "\<exists>xs' ys'. insort_key f b (xs @ e # ys) = xs' @ e # ys'
     \<and> insort_key f b (xs @ ys) = xs' @ ys'"
  using assms
proof (induction xs)
  case Nil
  show ?case
  proof (cases "f b \<le> f e")
    case True
    from Nil have "\<forall>y\<in>set ys. f e \<le> f y"
      by simp
    with True have "\<forall>y\<in>set ys. f b \<le> f y"
      by auto
    then have "insort_key f b ys = b # ys"
      by (rule insort_is_Cons)
    with True have "insort_key f b ([] @ e # ys) = [b] @ e # ys
        \<and> insort_key f b ([] @ ys) = [b] @ ys"
      by simp
    then show ?thesis by blast
  next
    case False
    then have "insort_key f b ([] @ e # ys) = [] @ e # insort_key f b ys
        \<and> insort_key f b ([] @ ys) = [] @ insort_key f b ys"
      by simp
    then show ?thesis by blast
  qed
next
  case (Cons x xs)
  show ?case
  proof (cases "f b \<le> f x")
    case True
    then have "insort_key f b ((x # xs) @ e # ys) = (b # x # xs) @ e # ys
        \<and> insort_key f b ((x # xs) @ ys) = (b # x # xs) @ ys"
      by simp
    then show ?thesis by blast
  next
    case False
    from Cons.prems have "sorted (map f (xs @ e # ys))"
      by simp
    with Cons.IH obtain xs' ys' where
      "insort_key f b (xs @ e # ys) = xs' @ e # ys'" "insort_key f b (xs @ ys) = xs' @ ys'"
      by blast
    with False have "insort_key f b ((x # xs) @ e # ys) = (x # xs') @ e # ys'
        \<and> insort_key f b ((x # xs) @ ys) = (x # xs') @ ys'"
      by simp
    then show ?thesis by blast
  qed
qed

lemma sort_key_remove:
  "\<exists>xs ys. sort_key f (before @ e # after) = xs @ e # ys
     \<and> sort_key f (before @ after) = xs @ ys"
proof (induction before)
  case Nil
  from insort_key_split [of f e "sort_key f after"] show ?case
    by simp
next
  case (Cons b before)
  from Cons.IH obtain xs ys where
    split: "sort_key f (before @ e # after) = xs @ e # ys" "sort_key f (before @ after) = xs @ ys"
    by blast
  have "sorted (map f (sort_key f (before @ e # after)))"
    by (rule sorted_sort_key)
  with split have "sorted (map f (xs @ e # ys))"
    by simp
  from insort_key_keeps_split [OF this, of b] split show ?case
    by simp
qed

lemma objectEntries_remove:
  "\<exists>xs ys. objectEntries (before @ e # after) = xs @ e # ys
     \<and> objectEntries (before @ after) = xs @ ys"
proof (cases "isArrayIndex (fst e)")
  case True
  let ?index = "\<lambda>entry :: string \<times> 'a. isArrayIndex (fst entry)"
  let ?rest = "filter (\<lambda>entry. \<not> isArrayIndex (fst entry)) (before @ after)"
  from sort_key_remove [of "\<lambda>entry. decimalValue (fst entry)" "filter ?index before" e
      "filter ?index after"]
  obtain xs ys where
    "sort_key (\<lambda>entry. decimalValue (fst entry)) (filter ?index before @ e # filter ?index after)
       = xs @ e # ys"
    "sort_key (\<lambda>entry. decimalValue (fst entry)) (filter ?index before @ filter ?index after)
       = xs @ ys"
    by blast
  with True have "objectEntries (before @ e # after) = xs @ e # (ys @ ?rest)
      \<and> objectEntries (before @ after) = xs @ (ys @ ?rest)"
    by (simp add: objectEntries_def)
  then show ?thesis by blast
next
  case False
  let ?sorted = "sort_key (\<lambda>entry. decimalValue (fst entry))
      (filter (\<lambda>entry. isArrayIndex (fst entry)) (before @ after))"
  let ?other = "\<lambda>entry :: string \<times> 'a. \<not> isArrayIndex (fst entry)"
  from False have "objectEntries (before @ e # after)
        = (?sorted @ filter ?other before) @ e # filter ?other after
      \<and> objectEntries (before @ after) = (?sorted @ filter ?other before) @ filter ?other after"
    by (simp add: objectEntries_def)
  then show ?thesis by blast
qed

lemma set_objectEntries: "set (objectEntries obj) = set obj"
  by (auto simp: objectEntries_def)

lemma list_all_objectEntries: "list_all P (objectEntries obj) = list_all P obj"
  by (simp add: list_all_iff set_objectEntries)

lemma fragments_Cons:
  "fragments tbl (entry # entries) =
     (case resolveClass tbl entry of None \<Rightarrow> [] | Some className \<Rightarrow> [CHR ''.'' # className])
       @ fragments tbl entries"
  by (simp add: fragments_def split: option.splits)

lemma buildParts_append:
  "buildParts tbl (xs @ ys) parts =
     (case buildParts tbl xs parts of Inl e \<Rightarrow> Inl e | Inr parts' \<Rightarrow> buildParts tbl ys parts')"
proof (induction xs arbitrary: parts)
  case Nil
  show ?case by simp
next
  case (Cons entry xs)
  show ?case
    by (cases entry) (simp add: Cons.IH split: option.splits sum.splits)
qed

lemma buildParts_parts:
  "buildParts tbl entries parts =
     (case buildParts tbl entries [] of Inl e \<Rightarrow> Inl e | Inr parts' \<Rightarrow> Inr (parts @ parts'))"
proof (induction entries arbitrary: parts)
  case Nil
  show ?case by simp
next
  case (Cons entry entries)
  obtain variantName variantValue where entry: "entry = (variantName, variantValue)"
    by (cases entry)
  have step: "buildParts tbl entries (parts @ [part]) =
      (case buildParts tbl entries [part] of
         Inl e \<Rightarrow> Inl e | Inr parts' \<Rightarrow> Inr (parts @ parts'))" for part
    using Cons.IH [of "parts @ [part]"] Cons.IH [of "[part]"]
    by (simp split: sum.splits)
  show ?case
    unfolding entry
    by (simp add: step Cons.IH [of parts] split: option.splits sum.splits)
qed

lemma buildParts_skip:
  assumes "variantValue = Undefined
     \<or> (tbl variantName = None \<and> inheritedMember variantName = None)
     \<or> (\<exists>variantClassNames. tbl variantName = Some variantClassNames
          \<and> (variantClassNames (variantKey variantValue) = Some []
              \<or> (variantClassNames (variantKey variantValue) = None
                  \<and> inheritedMember (variantKey variantValue) = None)))"
  shows "buildParts tbl ((variantName, variantValue) # entries) parts =
     buildParts tbl entries parts"
  using assms by (auto simp: readGroup_def)

lemma buildVariantSelector_skip:
  assumes "buildParts (classNames_variants rcp) (entry # []) [] = Inr []"
  shows "buildVariantSelector rcp (before @ entry # after) =
     buildVariantSelector rcp (before @ after)"
proof -
  obtain xs ys where
    split: "objectEntries (before @ entry # after) = xs @ entry # ys"
      "objectEntries (before @ after) = xs @ ys"
    using objectEntries_remove [of before entry after] by blast
  have one: "buildParts (classNames_variants rcp) (entry # ys) parts =
      buildParts (classNames_variants rcp) ys parts" for parts
    using assms buildParts_append [of "classNames_variants rcp" "[entry]" ys parts]
      buildParts_parts [of "classNames_variants rcp" "[entry]" parts]
    by simp
  show ?thesis
    by (simp add: buildVariantSelector_def split buildParts_append one cong: sum.case_cong)
qed

lemma buildParts_own:
  "ownNames entries \<Longrightarrow> buildParts tbl entries parts = Inr (parts @ fragments tbl entries)"
proof (induction entries arbitrary: parts)
  case Nil
  show ?case by (simp add: fragments_def)
next
  case (Cons entry entries)
  obtain variantName variantValue where entry: "entry = (variantName, variantValue)"
    by (cases entry)
  from Cons.prems have rest: "ownNames entries"
    and names: "inheritedMember variantName = None"
      "inheritedMember (variantKey variantValue) = None"
    by (simp_all add: ownNames_def entry)
  show ?case
    unfolding entry
    by (simp add: Cons.IH [OF rest] names fragments_Cons resolveClass_def readGroup_def
        split: option.splits)
qed

lemma finish_andThen:
  "finish calls (andThen first second) =
     (case finish calls first of
        Done calls' \<Rightarrow> finish calls' second
      | Thrown e calls' \<Rightarrow> Thrown e calls')"
  by (simp add: finish_def andThen_def split: option.splits)

lemma finish_nothing: "finish calls ([], None) = Done calls"
  by (simp add: finish_def)

lemma inOrder_Cons: "inOrder (r # rs) = andThen r (inOrder rs)"
  by (simp add: inOrder_def)

lemma inOrder_Nil: "inOrder [] = ([], None)"
  by (simp add: inOrder_def)

lemma inOrder_append: "inOrder (xs @ ys) = andThen (inOrder xs) (inOrder ys)"
  by (induction xs) (simp_all add: inOrder_Cons inOrder_Nil andThen_def split: option.splits)

lemma applySelectors_step:
  "applySelectors gens cs (entry # entries) calls =
     (case finish calls (stateRun gens cs entry) of
        Done calls' \<Rightarrow> applySelectors gens cs entries calls'
      | Thrown e calls' \<Rightarrow> Thrown e calls')"
  by (cases entry)
    (simp add: stateRun_def callRun_def finish_def globalStyle_def
      split: option.splits sum.splits)

lemma applySelectors_run:
  "applySelectors gens cs entries calls =
     finish calls (inOrder (map (stateRun gens cs) entries))"
proof (induction entries arbitrary: calls)
  case Nil
  show ?case by (simp add: inOrder_Nil finish_nothing)
next
  case (Cons entry entries)
  show ?case
    by (simp add: applySelectors_step inOrder_Cons finish_andThen Cons.IH
        del: applySelectors.simps cong: outcome.case_cong)
qed

lemma applyNested_run:
  "applyNested gens cs st calls =
     finish calls (inOrder (map (stateRun gens cs) (nestedEntries st)))"
  by (simp add: applyNested_def nestedEntries_def applySelectors_run inOrder_Nil finish_nothing
      split: option.splits)

lemma andThen_nothing: "andThen ([], None) r = r"
  by (simp add: andThen_def)

lemma applyStyle_run:
  "applyStyle gens cs st calls = finish calls (blockRun gens cs st)"
proof (cases "properties st = []")
  case True
  then show ?thesis
    by (simp add: applyStyle_def blockRun_def selfRun_def andThen_nothing applyNested_run)
next
  case False
  show ?thesis
  proof (cases "callGenerator (readGenerator gens ''&'') cs")
    case (Inl e)
    with False show ?thesis
      by (simp add: applyStyle_def blockRun_def selfRun_def callRun_def andThen_def finish_def)
  next
    case (Inr selector)
    with False show ?thesis
      by (simp add: applyStyle_def blockRun_def selfRun_def callRun_def finish_andThen
          applyNested_run globalStyle_def)
        (simp add: finish_def)
  qed
qed

lemma forEachCompound_step:
  "forEachCompound rcp gens (cv # cvs) calls =
     (case finish calls (entryRun rcp gens cv) of
        Done calls' \<Rightarrow> forEachCompound rcp gens cvs calls'
      | Thrown e calls' \<Rightarrow> Thrown e calls')"
proof (cases "buildVariantSelector rcp (variants cv)")
  case (Inl e)
  then show ?thesis
    by (simp add: entryRun_def finish_def)
next
  case (Inr variantSelector)
  then show ?thesis
    by (simp add: entryRun_def applyStyle_run finish_nothing)
qed

lemma forEachCompound_run:
  "forEachCompound rcp gens cvs calls =
     finish calls (inOrder (map (entryRun rcp gens) cvs))"
proof (induction cvs arbitrary: calls)
  case Nil
  show ?case by (simp add: inOrder_Nil finish_nothing)
next
  case (Cons cv cvs)
  show ?case
    by (simp add: forEachCompound_step inOrder_Cons finish_andThen Cons.IH
        del: forEachCompound.simps cong: outcome.case_cong)
qed

lemma globalRecipe_run:
  "globalRecipe opts calls =
     finish calls
       (andThen
          (case base opts of
             None \<Rightarrow> ([], None)
           | Some b \<Rightarrow>
               blockRun (selectorGenerators opts) (CHR ''.'' # classNames_base (recipe opts)) b)
          (inOrder (map (entryRun (recipe opts) (selectorGenerators opts))
             (case compoundVariants opts of None \<Rightarrow> [] | Some cvs \<Rightarrow> cvs))))"
proof -
  have first: "(case base opts of
        None \<Rightarrow> Done calls
      | Some b \<Rightarrow>
          applyStyle (selectorGenerators opts) (CHR ''.'' # classNames_base (recipe opts)) b calls)
      = finish calls
          (case base opts of
             None \<Rightarrow> ([], None)
           | Some b \<Rightarrow>
               blockRun (selectorGenerators opts) (CHR ''.'' # classNames_base (recipe opts)) b)"
    by (simp add: applyStyle_run finish_nothing split: option.splits)
  have second: "(case compoundVariants opts of
        None \<Rightarrow> Done calls'
      | Some cvs \<Rightarrow> forEachCompound (recipe opts) (selectorGenerators opts) cvs calls')
      = finish calls'
          (inOrder (map (entryRun (recipe opts) (selectorGenerators opts))
             (case compoundVariants opts of None \<Rightarrow> [] | Some cvs \<Rightarrow> cvs)))" for calls'
    by (simp add: forEachCompound_run inOrder_Nil finish_nothing split: option.splits)
  show ?thesis
    unfolding globalRecipe_def first finish_andThen
    by (simp add: second cong: outcome.case_cong)
qed

lemma stateRegistrations_length:
  "length (stateRegistrations gens cs entries) =
     length (filter (\<lambda>entry. gens (fst entry) \<noteq> None \<and> snd entry \<noteq> None) entries)"
  by (induction entries)
    (simp_all add: stateRegistrations_def stateRegistration_def split: option.splits)

lemma stateRun_own:
  "gens (fst entry) \<noteq> None \<or> inheritedMember (fst entry) = None \<Longrightarrow>
     stateRun gens cs entry =
       (case stateRegistration gens cs entry of None \<Rightarrow> [] | Some call \<Rightarrow> [call], None)"
  by (auto simp: stateRun_def callRun_def readGenerator_def stateRegistration_def
      split: option.splits)

lemma stateRuns_own:
  "ownStates gens entries \<Longrightarrow>
     inOrder (map (stateRun gens cs) entries) = (stateRegistrations gens cs entries, None)"
proof (induction entries)
  case Nil
  show ?case by (simp add: inOrder_Nil stateRegistrations_def)
next
  case (Cons entry entries)
  from Cons.prems have rest: "ownStates gens entries"
    and own: "gens (fst entry) \<noteq> None \<or> inheritedMember (fst entry) = None"
    by (simp_all add: ownStates_def)
  have "inOrder (map (stateRun gens cs) (entry # entries)) =
      andThen (stateRun gens cs entry) (stateRegistrations gens cs entries, None)"
    by (simp add: inOrder_Cons Cons.IH [OF rest])
  also have "\<dots> = (stateRegistrations gens cs (entry # entries), None)"
    using own
    by (simp add: stateRun_own [where gens = gens and entry = entry] andThen_def
        stateRegistrations_def split: option.splits)
  finally show ?case .
qed

lemma selfRun_own:
  "gens ''&'' = Some g \<Longrightarrow> selfRun gens cs st = (selfRegistration g cs st, None)"
  by (simp add: selfRun_def callRun_def readGenerator_def selfRegistration_def)

lemma blockRun_own:
  "gens ''&'' = Some g \<Longrightarrow> ownStates gens (nestedEntries st) \<Longrightarrow>
     blockRun gens cs st =
       (selfRegistration g cs st @ stateRegistrations gens cs (nestedEntries st), None)"
  by (simp add: blockRun_def selfRun_own stateRuns_own andThen_def)



lemmas evaluation =
  buildVariantSelector_def objectEntries_def isArrayIndex_def isDigit_def decimalValue_def
  digitValue_def readGroup_def readGenerator_def inheritedMember_def prototypeMethods_def
  objectStatics_def nativeSource_def globalRecipe_def applyStyle_def applyNested_def
  globalStyle_def

lemma insort_key_map:
  fixes g :: "'a \<Rightarrow> 'a"
  assumes "\<And>x. f (g x) = f x"
  shows "insort_key f (g x) (map g xs) = map g (insort_key f x xs)"
  by (induction xs) (simp_all add: assms)

lemma sort_key_map:
  fixes g :: "'a \<Rightarrow> 'a"
  assumes "\<And>x. f (g x) = f x"
  shows "sort_key f (map g xs) = map g (sort_key f xs)"
  by (induction xs) (simp_all add: insort_key_map [of f g, OF assms])

lemma objectEntries_map:
  fixes g :: "string \<times> 'a \<Rightarrow> string \<times> 'a"
  assumes "\<And>entry. fst (g entry) = fst entry"
  shows "objectEntries (map g obj) = map g (objectEntries obj)"
  by (simp add: objectEntries_def filter_map comp_def assms
      sort_key_map [of "\<lambda>entry. decimalValue (fst entry)" g])

lemma tokenOf_pair:
  "tokenOf (variantName, Undefined) = (variantName, Undefined)"
  "tokenOf (variantName, StringValue token) = (variantName, StringValue token)"
  "tokenOf (variantName, BoolValue b) =
     (variantName, StringValue (if b then ''true'' else ''false''))"
  by (simp_all add: tokenOf_def)

lemma buildParts_tokenOf:
  "buildParts tbl (map tokenOf entries) parts = buildParts tbl entries parts"
proof (induction entries arbitrary: parts)
  case Nil
  show ?case by simp
next
  case (Cons entry entries)
  obtain variantName variantValue where entry: "entry = (variantName, variantValue)"
    by (cases entry)
  show ?case
    unfolding entry
    by (cases variantValue)
      (simp_all add: tokenOf_pair Cons.IH split: option.splits sum.splits)
qed

section \<open>The selector builder\<close>

text \<open>
  Claim C1, as it is stated (\<open>selectorAsStated\<close>), fails on the code in three ways.
  The code drops an entry whose class name is the empty string (\<open>if (className)\<close>,
  line 83): for the table \<open>{size: {sm: ""}}\<close> and the selection \<open>{size: "sm"}\<close> it
  returns the empty string, where the statement gives \<open>"."\<close>. Lines 78 and 82 are plain
  property reads, which \<open>Object.prototype\<close> answers for a name the table does not own:
  \<open>{size: "__proto__"}\<close> gives \<open>".[object Object]"\<close> and \<open>{constructor: "name"}\<close> gives
  \<open>".Object"\<close>, where the statement gives nothing. And \<open>Object.entries\<close> lists array
  indices first: \<open>{b: "x", 2: "y", 1: "z"}\<close> gives \<open>".c1.c2.cb"\<close>, not the fragments in
  the order written.
\<close>

theorem selector_as_stated_counterexample:
  "buildVariantSelector
      \<lparr>classNames_base = ''button'', classNames_variants = [''size'' \<mapsto> [''sm'' \<mapsto> '''']]\<rparr>
      [(''size'', StringValue ''sm'')] = Inr ''''
   \<and> selectorAsStated [''size'' \<mapsto> [''sm'' \<mapsto> '''']] [(''size'', StringValue ''sm'')] = ''.''
   \<and> buildVariantSelector
      \<lparr>classNames_base = ''button'', classNames_variants = [''size'' \<mapsto> [''sm'' \<mapsto> ''s_sm'']]\<rparr>
      [(''size'', StringValue ''__proto__'')] = Inr ''.[object Object]''
   \<and> selectorAsStated [''size'' \<mapsto> [''sm'' \<mapsto> ''s_sm'']] [(''size'', StringValue ''__proto__'')] = ''''
   \<and> buildVariantSelector
      \<lparr>classNames_base = ''button'', classNames_variants = [''size'' \<mapsto> [''sm'' \<mapsto> ''s_sm'']]\<rparr>
      [(''constructor'', StringValue ''name'')] = Inr ''.Object''
   \<and> selectorAsStated [''size'' \<mapsto> [''sm'' \<mapsto> ''s_sm'']] [(''constructor'', StringValue ''name'')] = ''''
   \<and> buildVariantSelector
      \<lparr>classNames_base = ''button'',
       classNames_variants =
         [''b'' \<mapsto> [''x'' \<mapsto> ''cb''], ''1'' \<mapsto> [''z'' \<mapsto> ''c1''], ''2'' \<mapsto> [''y'' \<mapsto> ''c2'']]\<rparr>
      [(''b'', StringValue ''x''), (''2'', StringValue ''y''), (''1'', StringValue ''z'')]
      = Inr ''.c1.c2.cb''
   \<and> selectorAsStated
      [''b'' \<mapsto> [''x'' \<mapsto> ''cb''], ''1'' \<mapsto> [''z'' \<mapsto> ''c1''], ''2'' \<mapsto> [''y'' \<mapsto> ''c2'']]
      [(''b'', StringValue ''x''), (''2'', StringValue ''y''), (''1'', StringValue ''z'')]
      = ''.cb.c2.c1''"
  by (simp add: evaluation selectorAsStated_def fragmentAsStated_def)

text \<open>
  Claim C1, amended: for a selection none of whose group names and value keys is the
  name of a member of \<open>Object.prototype\<close>, \<open>buildVariantSelector\<close> returns the
  concatenation, with no separator and in the order in which \<open>Object.entries\<close> lists
  the selection's own entries, of one fragment \<open>"." + className\<close> for each entry whose
  value is not \<open>undefined\<close>, whose group is in the table and whose
  (boolean-normalised) key has a non-empty class name there. The other entries give
  nothing, and with no fragment the result is the empty string.
\<close>

theorem buildVariantSelector_fragments:
  assumes "ownNames vs"
  shows "buildVariantSelector rcp vs =
     Inr (concat (map (\<lambda>className. CHR ''.'' # className)
       (List.map_filter (resolveClass (classNames_variants rcp)) (objectEntries vs))))"
proof -
  from assms have "ownNames (objectEntries vs)"
    by (simp add: ownNames_def list_all_objectEntries)
  then show ?thesis
    by (simp add: buildVariantSelector_def buildParts_own fragments_def)
qed

theorem buildVariantSelector_fragments_witness:
  "buildVariantSelector
     \<lparr>classNames_base = ''button'',
      classNames_variants =
        [''size'' \<mapsto> [''sm'' \<mapsto> ''s_sm''], ''2'' \<mapsto> [''y'' \<mapsto> ''c2''],
         ''tone'' \<mapsto> [''plain'' \<mapsto> '''']]\<rparr>
     [(''tone'', StringValue ''plain''), (''size'', StringValue ''sm''),
      (''2'', StringValue ''y''), (''variant'', Undefined), (''ghost'', StringValue ''x''),
      (''size2'', BoolValue True)]
   = Inr ''.c2.s_sm''"
  using buildVariantSelector_fragments [of
     "[(''tone'', StringValue ''plain''), (''size'', StringValue ''sm''),
      (''2'', StringValue ''y''), (''variant'', Undefined), (''ghost'', StringValue ''x''),
      (''size2'', BoolValue True)]"
     "\<lparr>classNames_base = ''button'',
      classNames_variants =
        [''size'' \<mapsto> [''sm'' \<mapsto> ''s_sm''], ''2'' \<mapsto> [''y'' \<mapsto> ''c2''],
         ''tone'' \<mapsto> [''plain'' \<mapsto> '''']]\<rparr>"]
  by (simp add: evaluation ownNames_def resolveClass_def)

text \<open>
  Claim C5: a boolean value is looked up as the token \<open>"true"\<close> or \<open>"false"\<close>. The
  selection in which every boolean is replaced by its token gives the same result;
  and a boolean entry whose group keeps a non-empty class name under the token gives
  the fragment of that class, wherever \<open>Object.entries\<close> lists the entry: between what
  the entries before it and the entries after it give.
\<close>

theorem boolean_value_normalized:
  "buildVariantSelector rcp vs = buildVariantSelector rcp (map tokenOf vs)
   \<and> (objectEntries vs = earlier @ (variantName, BoolValue b) # later
        \<and> classNames_variants rcp variantName = Some variantClassNames
        \<and> variantClassNames (if b then ''true'' else ''false'') = Some className
        \<and> className \<noteq> []
      \<longrightarrow> buildVariantSelector rcp vs =
            (case buildParts (classNames_variants rcp) earlier [] of
               Inl e \<Rightarrow> Inl e
             | Inr parts \<Rightarrow>
                 (case buildParts (classNames_variants rcp) later [] of
                    Inl e \<Rightarrow> Inl e
                  | Inr parts' \<Rightarrow>
                      Inr (concat parts @ CHR ''.'' # className @ concat parts'))))"
proof -
  have "fst (tokenOf entry) = fst entry" for entry
    by (simp add: tokenOf_def split: variant_value.splits)
  then have "objectEntries (map tokenOf vs) = map tokenOf (objectEntries vs)"
    by (rule objectEntries_map)
  then have first: "buildVariantSelector rcp vs = buildVariantSelector rcp (map tokenOf vs)"
    by (simp add: buildVariantSelector_def buildParts_tokenOf)
  have second: "buildVariantSelector rcp vs =
      (case buildParts (classNames_variants rcp) earlier [] of
         Inl e \<Rightarrow> Inl e
       | Inr parts \<Rightarrow>
           (case buildParts (classNames_variants rcp) later [] of
              Inl e \<Rightarrow> Inl e
            | Inr parts' \<Rightarrow>
                Inr (concat parts @ CHR ''.'' # className @ concat parts')))"
    if entries: "objectEntries vs = earlier @ (variantName, BoolValue b) # later"
      and own: "classNames_variants rcp variantName = Some variantClassNames"
        "variantClassNames (if b then ''true'' else ''false'') = Some className"
        "className \<noteq> []"
  proof -
    have step: "buildParts (classNames_variants rcp) ((variantName, BoolValue b) # later) parts =
        buildParts (classNames_variants rcp) later (parts @ [CHR ''.'' # className])" for parts
      using own by (cases b) (simp_all add: readGroup_def)
    show ?thesis
      unfolding buildVariantSelector_def entries buildParts_append step
      by (simp add: buildParts_parts [of _ later "_ @ _"] split: sum.splits)
  qed
  from first second show ?thesis
    by blast
qed

theorem boolean_value_normalized_witness:
  "buildVariantSelector
     \<lparr>classNames_base = ''button_base'',
      classNames_variants =
        [''size'' \<mapsto> [''sm'' \<mapsto> ''button_size_sm''],
         ''disabled'' \<mapsto>
           [''true'' \<mapsto> ''button_disabled_true'', ''false'' \<mapsto> ''button_disabled_false'']]\<rparr>
     [(''size'', StringValue ''sm''), (''disabled'', BoolValue True)]
     = Inr ''.button_size_sm.button_disabled_true''
   \<and> buildVariantSelector
     \<lparr>classNames_base = ''button_base'',
      classNames_variants =
        [''size'' \<mapsto> [''sm'' \<mapsto> ''button_size_sm''],
         ''disabled'' \<mapsto>
           [''true'' \<mapsto> ''button_disabled_true'', ''false'' \<mapsto> ''button_disabled_false'']]\<rparr>
     [(''disabled'', BoolValue False), (''size'', StringValue ''sm'')]
     = Inr ''.button_disabled_false.button_size_sm''"
  using boolean_value_normalized [of
      "\<lparr>classNames_base = ''button_base'',
        classNames_variants =
          [''size'' \<mapsto> [''sm'' \<mapsto> ''button_size_sm''],
           ''disabled'' \<mapsto>
             [''true'' \<mapsto> ''button_disabled_true'', ''false'' \<mapsto> ''button_disabled_false'']]\<rparr>"
      "[(''size'', StringValue ''sm''), (''disabled'', BoolValue True)]"
      "[(''size'', StringValue ''sm'')]" "''disabled''" True "[]"
      "[''true'' \<mapsto> ''button_disabled_true'', ''false'' \<mapsto> ''button_disabled_false'']"
      "''button_disabled_true''"]
    boolean_value_normalized [of
      "\<lparr>classNames_base = ''button_base'',
        classNames_variants =
          [''size'' \<mapsto> [''sm'' \<mapsto> ''button_size_sm''],
           ''disabled'' \<mapsto>
             [''true'' \<mapsto> ''button_disabled_true'', ''false'' \<mapsto> ''button_disabled_false'']]\<rparr>"
      "[(''disabled'', BoolValue False), (''size'', StringValue ''sm'')]"
      "[]" "''disabled''" False "[(''size'', StringValue ''sm'')]"
      "[''true'' \<mapsto> ''button_disabled_true'', ''false'' \<mapsto> ''button_disabled_false'']"
      "''button_disabled_false''"]
  by (simp add: evaluation tokenOf_def)




text \<open>
  Claim C10: an entry whose group is in the table and whose key has the empty string
  as class name there gives no fragment: the result is that of the selection without
  the entry.
\<close>

theorem empty_class_name_skipped:
  assumes "classNames_variants rcp variantName = Some variantClassNames"
    and "variantClassNames (variantKey variantValue) = Some []"
  shows "buildVariantSelector rcp (before @ (variantName, variantValue) # after) =
     buildVariantSelector rcp (before @ after)"
proof (rule buildVariantSelector_skip)
  from assms show "buildParts (classNames_variants rcp) [(variantName, variantValue)] [] = Inr []"
    by (subst buildParts_skip) auto
qed

theorem empty_class_name_skipped_witness:
  "buildVariantSelector
     \<lparr>classNames_base = ''button_base'',
      classNames_variants = [''size'' \<mapsto> [''sm'' \<mapsto> ''button_size_sm''],
                             ''tone'' \<mapsto> [''plain'' \<mapsto> '''']]\<rparr>
     [(''tone'', StringValue ''plain''), (''size'', StringValue ''sm'')]
   = Inr ''.button_size_sm''"
  using empty_class_name_skipped [of
      "\<lparr>classNames_base = ''button_base'',
        classNames_variants = [''size'' \<mapsto> [''sm'' \<mapsto> ''button_size_sm''],
                               ''tone'' \<mapsto> [''plain'' \<mapsto> '''']]\<rparr>"
      "''tone''" "[''plain'' \<mapsto> '''']" "StringValue ''plain''" "[]"
      "[(''size'', StringValue ''sm'')]"]
  by (simp add: evaluation)

section \<open>The style expander\<close>

text \<open>
  Claim C8: a base style is expanded by \<open>applyStyle\<close> with the selector
  \<open>"." + recipe.classNames.base\<close>, before anything else and without a look at the
  variant table; the rest is \<open>globalRecipe\<close> without the base. With the generator
  \<open>v => v + " svg"\<close> for \<open>"&"\<close>, the base \<open>{pointerEvents: "none"}\<close> and the base class
  \<open>"btn"\<close> the one call is \<open>(".btn svg", {pointerEvents: "none"})\<close>.
\<close>

theorem base_uses_recipe_base_class:
  "globalRecipe (opts\<lparr>base := Some b\<rparr>) calls =
     (case applyStyle (selectorGenerators opts) (CHR ''.'' # classNames_base (recipe opts)) b calls of
        Done calls' \<Rightarrow> globalRecipe (opts\<lparr>base := None\<rparr>) calls'
      | Thrown e calls' \<Rightarrow> Thrown e calls')
   \<and> globalRecipe
       \<lparr>recipe = \<lparr>classNames_base = ''btn'', classNames_variants = Map.empty\<rparr>,
        selectorGenerators = [''&'' \<mapsto> (\<lambda>v. v @ '' svg'')],
        base = Some \<lparr>properties = [(''pointerEvents'', ''none'')], selectors = None\<rparr>,
        compoundVariants = None\<rparr>
       []
     = Done [(Selector ''.btn svg'', [(''pointerEvents'', ''none'')])]"
proof -
  have with_base: "globalRecipe (opts\<lparr>base := Some b\<rparr>) calls =
     (case applyStyle (selectorGenerators opts) (CHR ''.'' # classNames_base (recipe opts)) b calls of
        Done calls' \<Rightarrow>
          (case compoundVariants opts of
             None \<Rightarrow> Done calls'
           | Some cvs \<Rightarrow> forEachCompound (recipe opts) (selectorGenerators opts) cvs calls')
      | Thrown e calls' \<Rightarrow> Thrown e calls')"
    by (simp add: globalRecipe_def cong: outcome.case_cong option.case_cong)
  have without_base: "globalRecipe (opts\<lparr>base := None\<rparr>) calls' =
     (case compoundVariants opts of
        None \<Rightarrow> Done calls'
      | Some cvs \<Rightarrow> forEachCompound (recipe opts) (selectorGenerators opts) cvs calls')"
    for calls'
    by (simp add: globalRecipe_def cong: option.case_cong)
  have first: "globalRecipe (opts\<lparr>base := Some b\<rparr>) calls =
     (case applyStyle (selectorGenerators opts) (CHR ''.'' # classNames_base (recipe opts)) b calls of
        Done calls' \<Rightarrow> globalRecipe (opts\<lparr>base := None\<rparr>) calls'
      | Thrown e calls' \<Rightarrow> Thrown e calls')"
    by (simp only: with_base without_base)
  have second: "globalRecipe
       \<lparr>recipe = \<lparr>classNames_base = ''btn'', classNames_variants = Map.empty\<rparr>,
        selectorGenerators = [''&'' \<mapsto> (\<lambda>v. v @ '' svg'')],
        base = Some \<lparr>properties = [(''pointerEvents'', ''none'')], selectors = None\<rparr>,
        compoundVariants = None\<rparr>
       []
     = Done [(Selector ''.btn svg'', [(''pointerEvents'', ''none'')])]"
    by (simp add: evaluation)
  from first second show ?thesis
    by (rule conjI)
qed

text \<open>
  Claim C2: the calls of \<open>globalRecipe\<close> follow the calls already made, in this order,
  up to the first exception if there is one: for the base style the block's own call
  (when it has top-level properties) and then the calls of its nested states; after
  them, for each compound variant in the order of the array, the entry's own call and
  then the calls of its nested states. For the base \<open>{width, selectors: {"&:hover"}}\<close>
  and one compound variant of the same shape the four calls are: base, base hover,
  entry, entry hover.
\<close>

theorem emission_order:
  "globalRecipe opts calls =
     finish calls
       (andThen
          (case base opts of
             None \<Rightarrow> ([], None)
           | Some b \<Rightarrow>
               andThen
                 (selfRun (selectorGenerators opts) (CHR ''.'' # classNames_base (recipe opts)) b)
                 (inOrder (map (stateRun (selectorGenerators opts)
                      (CHR ''.'' # classNames_base (recipe opts))) (nestedEntries b))))
          (inOrder (map (\<lambda>cv.
               case buildVariantSelector (recipe opts) (variants cv) of
                 Inl e \<Rightarrow> ([], Some e)
               | Inr variantSelector \<Rightarrow>
                   (if variantSelector = [] then ([], None)
                    else andThen
                      (selfRun (selectorGenerators opts) variantSelector (style cv))
                      (inOrder (map (stateRun (selectorGenerators opts) variantSelector)
                         (nestedEntries (style cv))))))
             (case compoundVariants opts of None \<Rightarrow> [] | Some cvs \<Rightarrow> cvs))))
   \<and> globalRecipe
       \<lparr>recipe = \<lparr>classNames_base = ''button_base'',
                  classNames_variants = [''size'' \<mapsto> [''sm'' \<mapsto> ''button_size_sm'']]\<rparr>,
        selectorGenerators =
          [''&'' \<mapsto> (\<lambda>v. v @ '' svg''), ''&:hover'' \<mapsto> (\<lambda>v. v @ '':hover svg'')],
        base = Some \<lparr>properties = [(''width'', ''20px'')],
                     selectors = Some [(''&:hover'', Some [(''fill'', ''blue'')])]\<rparr>,
        compoundVariants = Some
          [\<lparr>variants = [(''size'', StringValue ''sm'')],
            style = \<lparr>properties = [(''width'', ''16px'')],
                      selectors = Some [(''&:hover'', Some [(''transform'', ''scale(1.1)'')])]\<rparr>\<rparr>]\<rparr>
       []
     = Done [(Selector ''.button_base svg'', [(''width'', ''20px'')]),
             (Selector ''.button_base:hover svg'', [(''fill'', ''blue'')]),
             (Selector ''.button_size_sm svg'', [(''width'', ''16px'')]),
             (Selector ''.button_size_sm:hover svg'', [(''transform'', ''scale(1.1)'')])]"
proof -
  have entry: "entryRun (recipe opts) (selectorGenerators opts) =
      (\<lambda>cv. case buildVariantSelector (recipe opts) (variants cv) of
                 Inl e \<Rightarrow> ([], Some e)
               | Inr variantSelector \<Rightarrow>
                   (if variantSelector = [] then ([], None)
                    else andThen
                      (selfRun (selectorGenerators opts) variantSelector (style cv))
                      (inOrder (map (stateRun (selectorGenerators opts) variantSelector)
                         (nestedEntries (style cv))))))"
    by (rule ext) (simp add: entryRun_def blockRun_def split: sum.splits)
  have first: "globalRecipe opts calls =
     finish calls
       (andThen
          (case base opts of
             None \<Rightarrow> ([], None)
           | Some b \<Rightarrow>
               andThen
                 (selfRun (selectorGenerators opts) (CHR ''.'' # classNames_base (recipe opts)) b)
                 (inOrder (map (stateRun (selectorGenerators opts)
                      (CHR ''.'' # classNames_base (recipe opts))) (nestedEntries b))))
          (inOrder (map (\<lambda>cv.
               case buildVariantSelector (recipe opts) (variants cv) of
                 Inl e \<Rightarrow> ([], Some e)
               | Inr variantSelector \<Rightarrow>
                   (if variantSelector = [] then ([], None)
                    else andThen
                      (selfRun (selectorGenerators opts) variantSelector (style cv))
                      (inOrder (map (stateRun (selectorGenerators opts) variantSelector)
                         (nestedEntries (style cv))))))
             (case compoundVariants opts of None \<Rightarrow> [] | Some cvs \<Rightarrow> cvs))))"
    unfolding globalRecipe_run entry blockRun_def ..
  have second: "globalRecipe
       \<lparr>recipe = \<lparr>classNames_base = ''button_base'',
                  classNames_variants = [''size'' \<mapsto> [''sm'' \<mapsto> ''button_size_sm'']]\<rparr>,
        selectorGenerators =
          [''&'' \<mapsto> (\<lambda>v. v @ '' svg''), ''&:hover'' \<mapsto> (\<lambda>v. v @ '':hover svg'')],
        base = Some \<lparr>properties = [(''width'', ''20px'')],
                     selectors = Some [(''&:hover'', Some [(''fill'', ''blue'')])]\<rparr>,
        compoundVariants = Some
          [\<lparr>variants = [(''size'', StringValue ''sm'')],
            style = \<lparr>properties = [(''width'', ''16px'')],
                      selectors = Some [(''&:hover'', Some [(''transform'', ''scale(1.1)'')])]\<rparr>\<rparr>]\<rparr>
       []
     = Done [(Selector ''.button_base svg'', [(''width'', ''20px'')]),
             (Selector ''.button_base:hover svg'', [(''fill'', ''blue'')]),
             (Selector ''.button_size_sm svg'', [(''width'', ''16px'')]),
             (Selector ''.button_size_sm:hover svg'', [(''transform'', ''scale(1.1)'')])]"
    by (simp add: evaluation)
  from first second show ?thesis
    by (rule conjI)
qed

text \<open>
  Claim C3: a compound variant whose selection resolves to the empty selector (every
  value \<open>undefined\<close>, every group unknown to the table, ...) brings no call at all:
  \<open>globalRecipe\<close> does what it does without the entry, whatever the entry's style
  holds, nested state styles included.
\<close>

theorem empty_selector_entry_skipped:
  assumes "buildVariantSelector (recipe opts) (variants cv) = Inr []"
    and "compoundVariants opts = Some (before @ cv # after)"
  shows "globalRecipe opts calls =
     globalRecipe (opts\<lparr>compoundVariants := Some (before @ after)\<rparr>) calls"
proof -
  from assms(1) have "entryRun (recipe opts) (selectorGenerators opts) cv = ([], None)"
    by (simp add: entryRun_def)
  then have "inOrder (map (entryRun (recipe opts) (selectorGenerators opts)) (before @ cv # after))
      = inOrder (map (entryRun (recipe opts) (selectorGenerators opts)) (before @ after))"
    by (simp add: inOrder_append inOrder_Cons andThen_nothing)
  with assms(2) show ?thesis
    by (simp add: globalRecipe_run cong: option.case_cong)
qed

theorem empty_selector_entry_skipped_witness:
  "globalRecipe
     \<lparr>recipe = \<lparr>classNames_base = ''button_base'',
                classNames_variants = [''size'' \<mapsto> [''sm'' \<mapsto> ''button_size_sm'']]\<rparr>,
      selectorGenerators =
        [''&'' \<mapsto> (\<lambda>v. v @ '' svg''), ''&:hover'' \<mapsto> (\<lambda>v. v @ '':hover svg'')],
      base = None,
      compoundVariants = Some
        [\<lparr>variants = [(''size'', Undefined), (''variant'', StringValue ''primary'')],
          style = \<lparr>properties = [(''width'', ''16px'')],
                    selectors = Some [(''&:hover'', Some [(''fill'', ''blue'')])]\<rparr>\<rparr>,
         \<lparr>variants = [(''size'', StringValue ''sm'')],
          style = \<lparr>properties = [(''width'', ''20px'')], selectors = None\<rparr>\<rparr>]\<rparr>
     []
   = Done [(Selector ''.button_size_sm svg'', [(''width'', ''20px'')])]"
  using empty_selector_entry_skipped [of
     "\<lparr>recipe = \<lparr>classNames_base = ''button_base'',
                classNames_variants = [''size'' \<mapsto> [''sm'' \<mapsto> ''button_size_sm'']]\<rparr>,
      selectorGenerators =
        [''&'' \<mapsto> (\<lambda>v. v @ '' svg''), ''&:hover'' \<mapsto> (\<lambda>v. v @ '':hover svg'')],
      base = None,
      compoundVariants = Some
        [\<lparr>variants = [(''size'', Undefined), (''variant'', StringValue ''primary'')],
          style = \<lparr>properties = [(''width'', ''16px'')],
                    selectors = Some [(''&:hover'', Some [(''fill'', ''blue'')])]\<rparr>\<rparr>,
         \<lparr>variants = [(''size'', StringValue ''sm'')],
          style = \<lparr>properties = [(''width'', ''20px'')], selectors = None\<rparr>\<rparr>]\<rparr>"
     "\<lparr>variants = [(''size'', Undefined), (''variant'', StringValue ''primary'')],
          style = \<lparr>properties = [(''width'', ''16px'')],
                    selectors = Some [(''&:hover'', Some [(''fill'', ''blue'')])]\<rparr>\<rparr>"
     "[]"
     "[\<lparr>variants = [(''size'', StringValue ''sm'')],
          style = \<lparr>properties = [(''width'', ''20px'')], selectors = None\<rparr>\<rparr>]"
     "[]"]
  by (simp add: evaluation)







text \<open>
  Claim C7, as it is stated, counts for an expanded entry one call for the block
  itself and one more for each state key of its nested mapping: \<open>callsAsStated\<close>. The
  code guards both (lines 156 and 163). The entry \<open>{variants: {size: "sm"}, style: {}}\<close>
  is expanded and brings no call where the statement counts one; a style with one
  property, a state without generator and a state whose style is \<open>undefined\<close> brings
  one call where the statement counts three.
\<close>

theorem guarded_calls_counterexample:
  "buildVariantSelector
      \<lparr>classNames_base = ''button'', classNames_variants = [''size'' \<mapsto> [''sm'' \<mapsto> ''size_sm'']]\<rparr>
      [(''size'', StringValue ''sm'')] = Inr ''.size_sm''
   \<and> globalRecipe
      \<lparr>recipe = \<lparr>classNames_base = ''button'',
                 classNames_variants = [''size'' \<mapsto> [''sm'' \<mapsto> ''size_sm'']]\<rparr>,
       selectorGenerators = [''&'' \<mapsto> (\<lambda>v. v @ '' svg'')],
       base = None,
       compoundVariants = Some
         [\<lparr>variants = [(''size'', StringValue ''sm'')],
           style = \<lparr>properties = [], selectors = None\<rparr>\<rparr>]\<rparr>
      [] = Done ([] :: string calls)
   \<and> callsAsStated \<lparr>properties = ([] :: string global_style_rule), selectors = None\<rparr> = 1
   \<and> globalRecipe
      \<lparr>recipe = \<lparr>classNames_base = ''button'',
                 classNames_variants = [''size'' \<mapsto> [''sm'' \<mapsto> ''size_sm'']]\<rparr>,
       selectorGenerators =
         [''&'' \<mapsto> (\<lambda>v. v @ '' svg''), ''&:hover'' \<mapsto> (\<lambda>v. v @ '':hover svg'')],
       base = None,
       compoundVariants = Some
         [\<lparr>variants = [(''size'', StringValue ''sm'')],
           style = \<lparr>properties = [(''width'', ''16px'')],
                     selectors = Some [(''&:focus'', Some [(''fill'', ''red'')]),
                                       (''&:hover'', None)]\<rparr>\<rparr>]\<rparr>
      [] = Done [(Selector ''.size_sm svg'', [(''width'', ''16px'')])]
   \<and> callsAsStated
      \<lparr>properties = [(''width'', ''16px'')],
       selectors = Some [(''&:focus'', Some [(''fill'', ''red'')]), (''&:hover'', None)]\<rparr> = 3"
  by (simp add: evaluation callsAsStated_def nestedEntries_def)

text \<open>
  Claim C7, amended: when the \<open>"&"\<close> generator is in the set, for a compound variant
  that is expanded (its selector is not empty) and whose state keys each have a
  generator in the set or are not the name of a member of \<open>Object.prototype\<close>, the
  calls of the entry follow the calls made up to the entry and come before those of
  the entries after it, and they are the block's own call, made once when the style
  has top-level properties and not at all when it has none, followed by one call for
  each state key of the nested mapping that has a generator in the set and a nested
  style that is there, and none for the other keys.
\<close>

theorem expanded_entry_calls:
  assumes "selectorGenerators opts ''&'' = Some g"
    and "compoundVariants opts = Some (before @ cv # after)"
    and "buildVariantSelector (recipe opts) (variants cv) = Inr variantSelector"
    and "variantSelector \<noteq> []"
    and "ownStates (selectorGenerators opts) (nestedEntries (style cv))"
  shows "globalRecipe opts calls =
       (case globalRecipe (opts\<lparr>compoundVariants := Some before\<rparr>) calls of
          Thrown e calls' \<Rightarrow> Thrown e calls'
        | Done earlier \<Rightarrow>
            globalRecipe (opts\<lparr>base := None, compoundVariants := Some after\<rparr>)
              (earlier @ selfRegistration g variantSelector (style cv)
                 @ stateRegistrations (selectorGenerators opts) variantSelector
                     (nestedEntries (style cv))))
     \<and> length (selfRegistration g variantSelector (style cv))
        = (if properties (style cv) = [] then 0 else 1)
     \<and> length (stateRegistrations (selectorGenerators opts) variantSelector
          (nestedEntries (style cv)))
        = length (filter (\<lambda>entry. selectorGenerators opts (fst entry) \<noteq> None \<and> snd entry \<noteq> None)
            (nestedEntries (style cv)))"
proof -
  let ?gens = "selectorGenerators opts"
  let ?entry = "entryRun (recipe opts) ?gens"
  let ?own = "selfRegistration g variantSelector (style cv)
      @ stateRegistrations ?gens variantSelector (nestedEntries (style cv))"
  let ?base = "case base opts of
        None \<Rightarrow> ([], None)
      | Some b \<Rightarrow> blockRun ?gens (CHR ''.'' # classNames_base (recipe opts)) b"
  from assms(1,5) have "blockRun ?gens variantSelector (style cv) = (?own, None)"
    by (rule blockRun_own)
  with assms(3,4) have own: "?entry cv = (?own, None)"
    by (simp add: entryRun_def)
  have whole: "globalRecipe opts calls =
      finish calls (andThen (andThen ?base (inOrder (map ?entry before)))
        (andThen (?own, None) (inOrder (map ?entry after))))"
    using assms(2)
    by (simp add: globalRecipe_run inOrder_append inOrder_Cons own andThen_def
        split: option.splits)
  have earlier: "globalRecipe (opts\<lparr>compoundVariants := Some before\<rparr>) calls =
      finish calls (andThen ?base (inOrder (map ?entry before)))"
    by (simp add: globalRecipe_run cong: option.case_cong)
  have later: "globalRecipe (opts\<lparr>base := None, compoundVariants := Some after\<rparr>) calls' =
      finish calls' (inOrder (map ?entry after))" for calls'
    by (simp add: globalRecipe_run andThen_nothing)
  have own_then: "finish calls' (andThen (?own, None) r) = finish (calls' @ ?own) r"
    for calls' and r :: "'a run"
    by (simp add: finish_def andThen_def split: option.splits)
  have segment: "globalRecipe opts calls =
       (case globalRecipe (opts\<lparr>compoundVariants := Some before\<rparr>) calls of
          Thrown e calls' \<Rightarrow> Thrown e calls'
        | Done earlier \<Rightarrow>
            globalRecipe (opts\<lparr>base := None, compoundVariants := Some after\<rparr>) (earlier @ ?own))"
    unfolding whole earlier later finish_andThen [of calls "andThen ?base _"]
    by (simp add: own_then cong: outcome.case_cong)
  have one: "length (selfRegistration g variantSelector (style cv))
      = (if properties (style cv) = [] then 0 else 1)"
    by (simp add: selfRegistration_def)
  from segment one show ?thesis
    by (simp add: stateRegistrations_length)
qed

theorem expanded_entry_calls_witness:
  "globalRecipe
     \<lparr>recipe = \<lparr>classNames_base = ''checkbox_base'',
                classNames_variants =
                  [''variant'' \<mapsto> [''checkbox'' \<mapsto> ''checkbox_variant_checkbox''],
                   ''size'' \<mapsto> [''sm'' \<mapsto> ''checkbox_size_sm'']]\<rparr>,
      selectorGenerators =
        [''&'' \<mapsto> (\<lambda>v. v @ '' input + div''),
         ''&:checked'' \<mapsto> (\<lambda>v. v @ '' input:checked + div'')],
      base = None,
      compoundVariants = Some
        [\<lparr>variants = [(''size'', StringValue ''sm'')],
          style = \<lparr>properties = [(''width'', ''16px'')], selectors = None\<rparr>\<rparr>,
         \<lparr>variants = [(''variant'', StringValue ''checkbox'')],
          style = \<lparr>properties = [(''borderRadius'', ''4px'')],
                    selectors = Some [(''&:checked'', Some [(''background'', ''blue'')])]\<rparr>\<rparr>]\<rparr>
     []
   = Done [(Selector ''.checkbox_size_sm input + div'', [(''width'', ''16px'')]),
           (Selector ''.checkbox_variant_checkbox input + div'', [(''borderRadius'', ''4px'')]),
           (Selector ''.checkbox_variant_checkbox input:checked + div'',
            [(''background'', ''blue'')])]"
  using expanded_entry_calls [of
     "\<lparr>recipe = \<lparr>classNames_base = ''checkbox_base'',
                classNames_variants =
                  [''variant'' \<mapsto> [''checkbox'' \<mapsto> ''checkbox_variant_checkbox''],
                   ''size'' \<mapsto> [''sm'' \<mapsto> ''checkbox_size_sm'']]\<rparr>,
      selectorGenerators =
        [''&'' \<mapsto> (\<lambda>v. v @ '' input + div''),
         ''&:checked'' \<mapsto> (\<lambda>v. v @ '' input:checked + div'')],
      base = None,
      compoundVariants = Some
        [\<lparr>variants = [(''size'', StringValue ''sm'')],
          style = \<lparr>properties = [(''width'', ''16px'')], selectors = None\<rparr>\<rparr>,
         \<lparr>variants = [(''variant'', StringValue ''checkbox'')],
          style = \<lparr>properties = [(''borderRadius'', ''4px'')],
                    selectors = Some [(''&:checked'', Some [(''background'', ''blue'')])]\<rparr>\<rparr>]\<rparr>"
     "\<lambda>v. v @ '' input + div''"
     "[\<lparr>variants = [(''size'', StringValue ''sm'')],
          style = \<lparr>properties = [(''width'', ''16px'')], selectors = None\<rparr>\<rparr>]"
     "\<lparr>variants = [(''variant'', StringValue ''checkbox'')],
          style = \<lparr>properties = [(''borderRadius'', ''4px'')],
                    selectors = Some [(''&:checked'', Some [(''background'', ''blue'')])]\<rparr>\<rparr>"
     "[]" "''.checkbox_variant_checkbox''" "[]"]
  by (simp add: evaluation ownStates_def nestedEntries_def selfRegistration_def
      stateRegistrations_def stateRegistration_def)

end
